theory Spec2Isabelle
  imports Main
begin

section \<open>Data model\<close>

text \<open>
  Modelled from the spec: class \<open>URI\<close> is used by \<open>callHierarchyTree.ts\<close> and by the
  \<open>Location\<close> interface but is declared nowhere in the sources at hand. The spec has the
  uris of two items "compared as opaque strings", so a URI is the string that its
  \<open>toString()\<close> returns.
\<close>

type_synonym URI = string

definition toString :: "URI \<Rightarrow> string" where
  "toString u = u"

text \<open>
  Modelled from the spec: interface \<open>IRange\<close> (\<open>./common/range\<close>) is not in the sources at
  hand. The spec speaks of a source range with a start position made of a row and a
  column; a range has an end position of the same shape.
\<close>

record IRange =
  start_row :: int
  start_column :: int
  end_row :: int
  end_column :: int

text \<open>Interface \<open>Location\<close>: a range inside a resource.\<close>

record Location =
  loc_uri :: URI
  loc_range :: IRange

text \<open>
  \<open>CallHierarchyItem\<close> (\<open>./callHierarchy\<close>, declaration not at hand): the fields that
  \<open>callHierarchyTree.ts\<close> reads, \<open>name\<close>, \<open>detail\<close>, \<open>uri\<close> and \<open>range\<close>.
\<close>

record CallHierarchyItem =
  item_name :: string
  item_detail :: string
  item_uri :: URI
  item_range :: IRange

text \<open>The two members of the enum \<open>CallHierarchyDirection\<close> that the code names.\<close>

datatype CallHierarchyDirection = CallsTo | CallsFrom

text \<open>The results of the model's two resolutions: \<open>{from, fromRanges}\<close> and \<open>{to, fromRanges}\<close>.\<close>

record IncomingCall =
  ic_from :: CallHierarchyItem
  ic_fromRanges :: "IRange list"

record OutgoingCall =
  oc_to :: CallHierarchyItem
  oc_fromRanges :: "IRange list"

text \<open>The type of the tokens that the model's two resolutions take.\<close>

datatype CancellationToken = CancellationToken_None

text \<open>
  \<open>CallHierarchyModel\<close>: its \<open>roots\<close> and its two asynchronous resolutions. An awaited
  promise either yields its value (\<open>Inr\<close>) or throws the reason of its rejection (\<open>Inl\<close>);
  \<open>'e\<close> is the type of these reasons.
\<close>

record 'e CallHierarchyModel =
  roots :: "CallHierarchyItem list"
  resolveOutgoingCalls :: "CallHierarchyItem \<Rightarrow> CancellationToken \<Rightarrow> 'e + OutgoingCall list"
  resolveIncomingCalls :: "CallHierarchyItem \<Rightarrow> CancellationToken \<Rightarrow> 'e + IncomingCall list"

text \<open>Class \<open>Call\<close>; \<open>undefined\<close> locations and an \<open>undefined\<close> parent are \<open>None\<close>.\<close>

datatype 'e Call =
  Call (item: CallHierarchyItem)
       (locations: "Location list option")
       (model: "'e CallHierarchyModel")
       (parent: "'e Call option")

section \<open>Call.compare and the Sorter\<close>

text \<open>
  Modelled from the spec: \<open>compare\<close> of \<open>./common/strings\<close> is not in the sources at hand.
  The spec: the uris are "compared as opaque strings (lexicographic)", with a
  negative, zero or positive result. Characters compare by their code.
\<close>

definition charCode :: "char \<Rightarrow> nat" where
  "charCode c = of_char c"

fun compare :: "string \<Rightarrow> string \<Rightarrow> int" where
  "compare [] [] = 0"
| "compare [] (y # ys) = - 1"
| "compare (x # xs) [] = 1"
| "compare (x # xs) (y # ys) =
     (if charCode x < charCode y then - 1
      else if charCode y < charCode x then 1
      else compare xs ys)"

text \<open>
  Modelled from the spec: \<open>Range.compareRangesUsingStarts\<close> of \<open>./common/range\<close> is not in
  the sources at hand. The spec: the ranges are "compared by start position (row then
  column, both ascending)".
\<close>

definition compareRangesUsingStarts :: "IRange \<Rightarrow> IRange \<Rightarrow> int" where
  "compareRangesUsingStarts a b =
     (if start_row a = start_row b then start_column a - start_column b
      else start_row a - start_row b)"

text \<open>
  The body of \<open>Call.compare\<close>, with the two imported comparators as the parameters
  \<open>strcmp\<close> and \<open>rangecmp\<close>.
\<close>

definition Call_compare_with ::
  "(string \<Rightarrow> string \<Rightarrow> int) \<Rightarrow> (IRange \<Rightarrow> IRange \<Rightarrow> int) \<Rightarrow> 'e Call \<Rightarrow> 'e Call \<Rightarrow> int" where
  "Call_compare_with strcmp rangecmp a b =
     (let res = strcmp (toString (item_uri (item a))) (toString (item_uri (item b)))
      in if res = 0 then rangecmp (item_range (item a)) (item_range (item b)) else res)"

text \<open>\<open>Call.compare\<close> with the two comparators as the spec describes them.\<close>

definition Call_compare :: "'e Call \<Rightarrow> 'e Call \<Rightarrow> int" where
  "Call_compare a b = Call_compare_with compare compareRangesUsingStarts a b"

text \<open>\<open>Sorter.compare\<close> hands both elements to \<open>Call.compare\<close>.\<close>

definition Sorter_compare :: "'e Call \<Rightarrow> 'e Call \<Rightarrow> int" where
  "Sorter_compare element otherElement = Call_compare element otherElement"

section \<open>DataSource\<close>

record DataSource =
  getDirection :: "unit \<Rightarrow> CallHierarchyDirection"

text \<open>The argument of \<open>getChildren\<close>: the model itself or one of its calls.\<close>

datatype 'e TreeElement = ModelElement "'e CallHierarchyModel" | CallElement "'e Call"

definition hasChildren :: "DataSource \<Rightarrow> bool" where
  "hasChildren ds = True"

text \<open>
  How \<open>getChildren\<close> can fail: with the reason of a rejected resolution, or with the
  \<open>ReferenceError\<close> that evaluating an unbound name throws.
\<close>

datatype 'e Failure = ReferenceError string | Rejected 'e

text \<open>
  The body of \<open>getChildren\<close>. Its first argument is what the expression
  \<open>CancellationToken.None\<close> finds in the scope of the module: \<open>None\<close> when the name
  \<open>CancellationToken\<close> is unbound, \<open>Some token\<close> when it is bound. The arguments of a call
  are evaluated before the call, so with the name unbound neither resolution is
  called.
\<close>

definition getChildren_in ::
  "CancellationToken option \<Rightarrow> DataSource \<Rightarrow> 'e TreeElement \<Rightarrow> 'e Failure + 'e Call list" where
  "getChildren_in scope ds element =
     (case element of
        ModelElement m \<Rightarrow> Inr (map (\<lambda>root. Call root None m None) (roots m))
      | CallElement el \<Rightarrow>
          (let model' = model el; item' = item el in
           if getDirection ds () = CallsFrom then
             (case scope of
                None \<Rightarrow> Inl (ReferenceError ''CancellationToken is not defined'')
              | Some token \<Rightarrow>
                  (case resolveOutgoingCalls model' item' token of
                     Inl err \<Rightarrow> Inl (Rejected err)
                   | Inr calls \<Rightarrow>
                       Inr (map (\<lambda>call.
                              Call (oc_to call)
                                   (Some (map (\<lambda>range'. \<lparr>loc_uri = item_uri item', loc_range = range'\<rparr>)
                                              (oc_fromRanges call)))
                                   model'
                                   (Some el))
                            calls)))
           else
             (case scope of
                None \<Rightarrow> Inl (ReferenceError ''CancellationToken is not defined'')
              | Some token \<Rightarrow>
                  (case resolveIncomingCalls model' item' token of
                     Inl err \<Rightarrow> Inl (Rejected err)
                   | Inr calls \<Rightarrow>
                       Inr (map (\<lambda>call.
                              Call (ic_from call)
                                   (Some (map (\<lambda>range'. \<lparr>loc_uri = item_uri (ic_from call), loc_range = range'\<rparr>)
                                              (ic_fromRanges call)))
                                   model'
                                   (Some el))
                            calls)))))"

text \<open>
  \<open>getChildren\<close> as \<open>callHierarchyTree.ts\<close> has it: the import of \<open>CancellationToken\<close> (line 8)
  is commented out and nothing else in the module declares the name, while lines 67 and
  76 still evaluate \<open>CancellationToken.None\<close>.
\<close>

definition getChildren :: "DataSource \<Rightarrow> 'e TreeElement \<Rightarrow> 'e Failure + 'e Call list" where
  "getChildren ds element = getChildren_in None ds element"

section \<open>IdentityProvider\<close>

text \<open>
  What \<open>getId\<close> takes from outside \<open>callHierarchyTree.ts\<close>: the string that \<open>+\<close> makes of a
  member of the enum \<open>CallHierarchyDirection\<close> (whose declaration is not at hand), and
  what \<open>JSON.stringify\<close> returns for a uri and for a range (whose classes are not at
  hand).
\<close>

record Stringify =
  directionString :: "CallHierarchyDirection \<Rightarrow> string"
  stringifyUri :: "URI \<Rightarrow> string"
  stringifyRange :: "IRange \<Rightarrow> string"

record IdentityProvider =
  ip_getDirection :: "unit \<Rightarrow> CallHierarchyDirection"

fun getId :: "Stringify \<Rightarrow> IdentityProvider \<Rightarrow> 'e Call \<Rightarrow> string" where
  "getId js ip (Call item' locations' model' parent') =
     (let res = directionString js (ip_getDirection ip ())
                @ stringifyUri js (item_uri item')
                @ stringifyRange js (item_range item')
      in case parent' of
           Some p \<Rightarrow> res @ getId js ip p
         | None \<Rightarrow> res)"

text \<open>The items of a call and of its ancestors, as far as \<open>uri\<close> and \<open>range\<close>, from the call up to its root.\<close>

fun chain :: "'e Call \<Rightarrow> (URI \<times> IRange) list" where
  "chain (Call item' locations' model' parent') =
     (item_uri item', item_range item') #
     (case parent' of Some p \<Rightarrow> chain p | None \<Rightarrow> [])"

text \<open>
  A serialisation is self-delimiting when no output is a proper prefix of another and
  different values have different outputs: whatever follows an output, the value can be
  read back from the front.
\<close>

definition self_delimiting :: "('a \<Rightarrow> string) \<Rightarrow> bool" where
  "self_delimiting f \<longleftrightarrow> (\<forall>x y s t. f x @ s = f y @ t \<longrightarrow> x = y)"

section \<open>A JSON serialisation\<close>

text \<open>
  One way to fill in \<open>Stringify\<close>, after \<open>JSON.stringify\<close>, for the examples below: a whole
  number is printed in decimal, a string between double quotes with the quote and the
  backslash escaped, a range as an object with its four properties; the two directions
  read \<open>incomingCalls\<close> and \<open>outgoingCalls\<close>.
\<close>

definition digit_char :: "nat \<Rightarrow> char" where
  "digit_char d = ''0123456789'' ! d"

function showNat :: "nat \<Rightarrow> string" where
  "showNat n = (if n < 10 then [digit_char n] else showNat (n div 10) @ [digit_char (n mod 10)])"
  by pat_completeness auto
termination
  by (relation "measure id") auto

declare showNat.simps [simp del]

definition showInt :: "int \<Rightarrow> string" where
  "showInt i = (if i < 0 then CHR ''-'' # showNat (nat (- i)) else showNat (nat i))"

fun escape :: "string \<Rightarrow> string" where
  "escape [] = []"
| "escape (c # cs) =
     (if c = CHR 0x22 \<or> c = CHR 0x5C then CHR 0x5C # c # escape cs else c # escape cs)"

definition quote :: "string \<Rightarrow> string" where
  "quote s = CHR 0x22 # escape s @ [CHR 0x22]"

definition rangeJSON :: "IRange \<Rightarrow> string" where
  \<open>rangeJSON r =
     ''{"start_row":'' @ showInt (start_row r) @
     '',"start_column":'' @ showInt (start_column r) @
     '',"end_row":'' @ showInt (end_row r) @
     '',"end_column":'' @ showInt (end_column r) @ ''}''\<close>

fun directionTag :: "CallHierarchyDirection \<Rightarrow> string" where
  "directionTag CallsTo = ''incomingCalls''"
| "directionTag CallsFrom = ''outgoingCalls''"

text \<open>The same, but with the uri written as it is, without quotes.\<close>

definition raw_uri :: Stringify where
  "raw_uri = \<lparr>directionString = directionTag, stringifyUri = (\<lambda>u. u), stringifyRange = rangeJSON\<rparr>"

definition json :: Stringify where
  "json = \<lparr>directionString = directionTag, stringifyUri = quote, stringifyRange = rangeJSON\<rparr>"

text \<open>The characters of a printed whole number.\<close>

definition digit_chars :: "char set" where
  "digit_chars = set ''0123456789''"

definition numeric_chars :: "char set" where
  "numeric_chars = insert CHR ''-'' digit_chars"

section \<open>A session\<close>

text \<open>
  The scenario of the spec: one root \<open>A\<close>; \<open>A\<close> calls \<open>B\<close> at \<open>site1\<close>, inside \<open>A\<close>'s file;
  \<open>C\<close> calls \<open>A\<close> at \<open>site2\<close>, inside \<open>C\<close>'s file. \<open>D\<close> is a second symbol of \<open>B\<close>'s file, and
  \<open>rejecting\<close> a second model, whose resolutions are rejected.
\<close>

definition item_A :: CallHierarchyItem where
  "item_A = \<lparr>item_name = ''a'', item_detail = ''function'', item_uri = ''file:///src/a.ts'',
             item_range = \<lparr>start_row = 3, start_column = 1, end_row = 9, end_column = 2\<rparr>\<rparr>"

definition item_B :: CallHierarchyItem where
  "item_B = \<lparr>item_name = ''b'', item_detail = ''function'', item_uri = ''file:///src/b.ts'',
             item_range = \<lparr>start_row = 12, start_column = 1, end_row = 20, end_column = 2\<rparr>\<rparr>"

definition item_C :: CallHierarchyItem where
  "item_C = \<lparr>item_name = ''c'', item_detail = ''method'', item_uri = ''file:///src/c.ts'',
             item_range = \<lparr>start_row = 12, start_column = 5, end_row = 14, end_column = 6\<rparr>\<rparr>"

definition item_D :: CallHierarchyItem where
  "item_D = \<lparr>item_name = ''d'', item_detail = ''function'', item_uri = ''file:///src/b.ts'',
             item_range = \<lparr>start_row = 12, start_column = 9, end_row = 12, end_column = 30\<rparr>\<rparr>"

definition site1 :: IRange where
  "site1 = \<lparr>start_row = 5, start_column = 10, end_row = 5, end_column = 11\<rparr>"

definition site2 :: IRange where
  "site2 = \<lparr>start_row = 13, start_column = 7, end_row = 13, end_column = 8\<rparr>"

definition session :: "string CallHierarchyModel" where
  "session = \<lparr>roots = [item_A],
     resolveOutgoingCalls = (\<lambda>i token.
        if item_uri i = ''file:///src/a.ts'' then Inr [\<lparr>oc_to = item_B, oc_fromRanges = [site1]\<rparr>]
        else Inr []),
     resolveIncomingCalls = (\<lambda>i token.
        if item_uri i = ''file:///src/a.ts'' then Inr [\<lparr>ic_from = item_C, ic_fromRanges = [site2]\<rparr>]
        else Inr [])\<rparr>"

definition rejecting :: "string CallHierarchyModel" where
  "rejecting = \<lparr>roots = [item_A],
     resolveOutgoingCalls = (\<lambda>i token. Inl ''provider timeout''),
     resolveIncomingCalls = (\<lambda>i token. Inl ''symbol no longer resolvable'')\<rparr>"

definition outgoing :: DataSource where
  "outgoing = \<lparr>getDirection = (\<lambda>u. CallsFrom)\<rparr>"

definition incoming :: DataSource where
  "incoming = \<lparr>getDirection = (\<lambda>u. CallsTo)\<rparr>"

definition outgoing_ids :: IdentityProvider where
  "outgoing_ids = \<lparr>ip_getDirection = (\<lambda>u. CallsFrom)\<rparr>"

definition incoming_ids :: IdentityProvider where
  "incoming_ids = \<lparr>ip_getDirection = (\<lambda>u. CallsTo)\<rparr>"

text \<open>
  Calls over this session, written out by hand: the root \<open>A\<close> and, below it, calls for
  \<open>B\<close>, \<open>D\<close> and \<open>C\<close> with their call sites.
\<close>

definition call_A :: "string Call" where
  "call_A = Call item_A None session None"

definition call_B :: "string Call" where
  "call_B = Call item_B (Some [\<lparr>loc_uri = ''file:///src/a.ts'', loc_range = site1\<rparr>]) session (Some call_A)"

definition call_D :: "string Call" where
  "call_D = Call item_D (Some [\<lparr>loc_uri = ''file:///src/a.ts'', loc_range = site2\<rparr>]) session (Some call_A)"

definition call_C :: "string Call" where
  "call_C = Call item_C (Some [\<lparr>loc_uri = ''file:///src/c.ts'', loc_range = site2\<rparr>]) session (Some call_A)"

section \<open>Children of the model and of a call\<close>

text \<open>
  C2: for the model as the root container, \<open>getChildren\<close> returns one call per root
  item, in the order of the roots, each without locations and without parent (and each
  holding the model), whatever the direction.
\<close>

theorem getChildren_roots:
  "\<exists>cs. getChildren ds (ModelElement m) = Inr cs
      \<and> map item cs = roots m
      \<and> (\<forall>c \<in> set cs. locations c = None \<and> parent c = None \<and> model c = m)"
  by (simp add: getChildren_def getChildren_in_def comp_def)

theorem getChildren_roots_witness:
  "getChildren outgoing (ModelElement session) = Inr [call_A]
     \<and> map item [call_A] = roots session
     \<and> locations call_A = None \<and> parent call_A = None \<and> model call_A = session"
  using getChildren_roots [of outgoing session]
  by (simp add: getChildren_def getChildren_in_def call_A_def session_def)




text \<open>
  C1 says that the children of an expanded call carry, in their locations, the uri of
  the expanded item (outgoing) or of the discovered caller (incoming). As the module
  stands no child is built: for the root \<open>A\<close> of the session, whose outgoing resolution
  yields \<open>{to: B, fromRanges: [site1]}\<close> and whose incoming resolution yields
  \<open>{from: C, fromRanges: [site2]}\<close>, \<open>getChildren\<close> is rejected with the \<open>ReferenceError\<close> of
  the unbound name in both directions.
\<close>

theorem getChildren_builds_no_child:
  "resolveOutgoingCalls session item_A CancellationToken_None
       = Inr [\<lparr>oc_to = item_B, oc_fromRanges = [site1]\<rparr>]
     \<and> getChildren outgoing (CallElement call_A)
         = Inl (ReferenceError ''CancellationToken is not defined'')
     \<and> resolveIncomingCalls session item_A CancellationToken_None
         = Inr [\<lparr>ic_from = item_C, ic_fromRanges = [site2]\<rparr>]
     \<and> getChildren incoming (CallElement call_A)
         = Inl (ReferenceError ''CancellationToken is not defined'')"
  by (simp add: getChildren_def getChildren_in_def Let_def outgoing_def incoming_def
      call_A_def session_def item_A_def)

text \<open>
  C9 says that a rejected resolution makes \<open>getChildren\<close> fail with the same reason. As
  the module stands the reason is another one: on a model whose resolutions are
  rejected with \<open>provider timeout\<close> and \<open>symbol no longer resolvable\<close>, \<open>getChildren\<close> is
  rejected with the \<open>ReferenceError\<close> of the unbound name, and with neither of the two
  reasons.
\<close>

theorem getChildren_rejection_replaced:
  "resolveOutgoingCalls rejecting item_A CancellationToken_None = Inl ''provider timeout''
     \<and> getChildren outgoing (CallElement (Call item_A None rejecting None))
         = Inl (ReferenceError ''CancellationToken is not defined'')
     \<and> getChildren outgoing (CallElement (Call item_A None rejecting None))
         \<noteq> Inl (Rejected ''provider timeout'')
     \<and> resolveIncomingCalls rejecting item_A CancellationToken_None
         = Inl ''symbol no longer resolvable''
     \<and> getChildren incoming (CallElement (Call item_A None rejecting None))
         = Inl (ReferenceError ''CancellationToken is not defined'')
     \<and> getChildren incoming (CallElement (Call item_A None rejecting None))
         \<noteq> Inl (Rejected ''symbol no longer resolvable'')"
  by (simp add: getChildren_def getChildren_in_def Let_def outgoing_def incoming_def
      rejecting_def)

text \<open>
  C10 says that the expansion of a call returns one child per result of the
  resolution. As the module stands the expansion of a call returns no list at all,
  for any data source and any call: it is rejected with the \<open>ReferenceError\<close> of the unbound
  name, whatever the resolution would yield.
\<close>

theorem getChildren_expansion_rejected:
  "getChildren ds (CallElement el) = Inl (ReferenceError ''CancellationToken is not defined'')
     \<and> getChildren ds (CallElement el) \<noteq> Inr cs"
  by (simp add: getChildren_def getChildren_in_def Let_def)

subsection \<open>The body with the name bound\<close>

text \<open>
  What the body of \<open>getChildren\<close> does once \<open>CancellationToken.None\<close> evaluates to a token:
  the locations of the children take their uri from the expanded item (outgoing) or
  from the discovered caller (incoming).
\<close>

lemma getChildren_in_location_uri:
  "(getDirection ds () = CallsFrom \<longrightarrow>
      resolveOutgoingCalls (model el) (item el) token = Inr outs \<longrightarrow>
      (\<exists>cs. getChildren_in (Some token) ds (CallElement el) = Inr cs \<and> length cs = length outs \<and>
         (\<forall>i < length outs. item (cs ! i) = oc_to (outs ! i) \<and>
            (\<exists>ls. locations (cs ! i) = Some ls \<and>
                  map loc_range ls = oc_fromRanges (outs ! i) \<and>
                  (\<forall>l \<in> set ls. loc_uri l = item_uri (item el))))))
   \<and> (getDirection ds () = CallsTo \<longrightarrow>
      resolveIncomingCalls (model el) (item el) token = Inr ins \<longrightarrow>
      (\<exists>cs. getChildren_in (Some token) ds (CallElement el) = Inr cs \<and> length cs = length ins \<and>
         (\<forall>i < length ins. item (cs ! i) = ic_from (ins ! i) \<and>
            (\<exists>ls. locations (cs ! i) = Some ls \<and>
                  map loc_range ls = ic_fromRanges (ins ! i) \<and>
                  (\<forall>l \<in> set ls. loc_uri l = item_uri (ic_from (ins ! i)))))))"
  by (simp add: getChildren_in_def Let_def comp_def)

text \<open>One child per result, in order, with the element's model and the element as parent.\<close>

lemma getChildren_in_one_per_result:
  "(getDirection ds () = CallsFrom \<longrightarrow>
      resolveOutgoingCalls (model el) (item el) token = Inr outs \<longrightarrow>
      (\<exists>cs. getChildren_in (Some token) ds (CallElement el) = Inr cs
         \<and> map item cs = map oc_to outs
         \<and> map (\<lambda>c. map_option (map loc_range) (locations c)) cs
             = map (\<lambda>call. Some (oc_fromRanges call)) outs
         \<and> (\<forall>c \<in> set cs. model c = model el \<and> parent c = Some el)))
   \<and> (getDirection ds () = CallsTo \<longrightarrow>
      resolveIncomingCalls (model el) (item el) token = Inr ins \<longrightarrow>
      (\<exists>cs. getChildren_in (Some token) ds (CallElement el) = Inr cs
         \<and> map item cs = map ic_from ins
         \<and> map (\<lambda>c. map_option (map loc_range) (locations c)) cs
             = map (\<lambda>call. Some (ic_fromRanges call)) ins
         \<and> (\<forall>c \<in> set cs. model c = model el \<and> parent c = Some el)))"
  by (simp add: getChildren_in_def Let_def comp_def)

text \<open>The reason of a rejected resolution is handed on.\<close>

lemma getChildren_in_rejected:
  "(getDirection ds () = CallsFrom \<longrightarrow>
      resolveOutgoingCalls (model el) (item el) token = Inl err \<longrightarrow>
      getChildren_in (Some token) ds (CallElement el) = Inl (Rejected err))
   \<and> (getDirection ds () = CallsTo \<longrightarrow>
      resolveIncomingCalls (model el) (item el) token = Inl err \<longrightarrow>
      getChildren_in (Some token) ds (CallElement el) = Inl (Rejected err))"
  by (simp add: getChildren_in_def Let_def)

text \<open>Locations and parent are undefined together, whatever the name is bound to.\<close>

lemma getChildren_in_locations_iff_parent:
  assumes "getChildren_in scope ds element = Inr cs" and "c \<in> set cs"
  shows "(locations c = None \<longleftrightarrow> parent c = None)
     \<and> (case element of
          ModelElement m \<Rightarrow> locations c = None \<and> parent c = None
        | CallElement el \<Rightarrow> (\<exists>ls. locations c = Some ls) \<and> parent c = Some el)"
proof (cases element)
  case (ModelElement m)
  with assms show ?thesis by (auto simp add: getChildren_in_def)
next
  case (CallElement el)
  with assms show ?thesis
    by (auto simp add: getChildren_in_def Let_def split: if_splits sum.splits option.splits)
qed

lemma getChildren_in_session:
  "getChildren_in (Some CancellationToken_None) outgoing (CallElement call_A) = Inr [call_B]
     \<and> getChildren_in (Some CancellationToken_None) incoming (CallElement call_A) = Inr [call_C]"
  by (simp add: getChildren_in_def Let_def outgoing_def incoming_def call_A_def call_B_def
      call_C_def session_def item_A_def item_C_def)

section \<open>The order of calls\<close>

lemma charCode_eq_iff: "charCode x = charCode y \<longleftrightarrow> x = y"
  unfolding charCode_def by (metis char_of_char)

lemma charCode_cases: "charCode x < charCode y \<or> charCode y < charCode x \<or> x = y"
  using charCode_eq_iff[of x y] by linarith

lemma compare_refl: "compare xs xs = 0"
  by (induction xs) simp_all

lemma compare_eq_0: "compare xs ys = 0 \<longleftrightarrow> xs = ys"
proof (induction xs ys rule: compare.induct)
  case (4 x xs y ys)
  then show ?case using charCode_cases[of x y] by auto
qed simp_all

lemma compare_antisym: "compare xs ys = - compare ys xs"
  by (induction xs ys rule: compare.induct) simp_all

lemma compare_trans_lt: "compare xs ys < 0 \<Longrightarrow> compare ys zs < 0 \<Longrightarrow> compare xs zs < 0"
proof (induction xs ys arbitrary: zs rule: compare.induct)
  case 1 then show ?case by simp
next
  case (2 y ys) then show ?case by (cases zs) simp_all
next
  case (3 x xs) then show ?case by simp
next
  case (4 x xs y ys)
  show ?case
  proof (cases zs)
    case Nil with 4(3) show ?thesis by simp
  next
    case (Cons z zs')
    have xy: "charCode x \<le> charCode y" using 4(2) by (simp split: if_splits)
    have yz: "charCode y \<le> charCode z" using 4(3) Cons by (simp split: if_splits)
    show ?thesis
    proof (cases "charCode x < charCode z")
      case True then show ?thesis using Cons by simp
    next
      case False
      with xy yz have e: "charCode x = charCode y" "charCode y = charCode z" by linarith+
      then have "compare xs ys < 0" "compare ys zs' < 0" using 4(2,3) Cons by simp_all
      then have "compare xs zs' < 0" using 4(1)[of zs'] e by simp
      then show ?thesis using Cons e by simp
    qed
  qed
qed

lemma Call_compare_unfold:
  "Call_compare a b =
     (if item_uri (item a) = item_uri (item b)
      then compareRangesUsingStarts (item_range (item a)) (item_range (item b))
      else compare (item_uri (item a)) (item_uri (item b)))"
  by (simp add: Call_compare_def Call_compare_with_def toString_def Let_def compare_eq_0)

lemma compareRangesUsingStarts_neg:
  "compareRangesUsingStarts r s < 0 \<longleftrightarrow>
     start_row r < start_row s \<or> (start_row r = start_row s \<and> start_column r < start_column s)"
  by (simp add: compareRangesUsingStarts_def)

lemma compareRangesUsingStarts_zero:
  "compareRangesUsingStarts r s = 0 \<longleftrightarrow> start_row r = start_row s \<and> start_column r = start_column s"
  by (simp add: compareRangesUsingStarts_def)

lemma compareRangesUsingStarts_pos:
  "compareRangesUsingStarts r s > 0 \<longleftrightarrow>
     start_row s < start_row r \<or> (start_row r = start_row s \<and> start_column s < start_column r)"
  by (auto simp add: compareRangesUsingStarts_def)

lemma Call_compare_neg:
  "Call_compare a b < 0 \<longleftrightarrow>
     compare (item_uri (item a)) (item_uri (item b)) < 0 \<or>
     (item_uri (item a) = item_uri (item b) \<and>
      compareRangesUsingStarts (item_range (item a)) (item_range (item b)) < 0)"
  by (simp add: Call_compare_unfold compare_refl)

lemma Call_compare_zero:
  "Call_compare a b = 0 \<longleftrightarrow>
     item_uri (item a) = item_uri (item b) \<and>
     compareRangesUsingStarts (item_range (item a)) (item_range (item b)) = 0"
  by (simp add: Call_compare_unfold compare_eq_0)

lemma Call_compare_flip: "Call_compare b a = - Call_compare a b"
  using compare_antisym[of "item_uri (item b)" "item_uri (item a)"]
  by (auto simp add: Call_compare_unfold compareRangesUsingStarts_def)

lemma Call_compare_trans_lt:
  assumes "Call_compare a b < 0" "Call_compare b c < 0" shows "Call_compare a c < 0"
proof -
  let ?u = "\<lambda>x. item_uri (item x)" and ?r = "\<lambda>x. item_range (item x)"
  from assms(1) consider (s1) "compare (?u a) (?u b) < 0"
    | (e1) "?u a = ?u b" "compareRangesUsingStarts (?r a) (?r b) < 0"
    unfolding Call_compare_neg by blast
  then show ?thesis
  proof cases
    case s1
    from assms(2) consider (s2) "compare (?u b) (?u c) < 0" | (e2) "?u b = ?u c"
      unfolding Call_compare_neg by blast
    then show ?thesis
    proof cases
      case s2 with s1 show ?thesis using compare_trans_lt Call_compare_neg by blast
    next
      case e2 with s1 show ?thesis using Call_compare_neg by metis
    qed
  next
    case e1
    from assms(2) consider (s2) "compare (?u b) (?u c) < 0"
      | (e2) "?u b = ?u c" "compareRangesUsingStarts (?r b) (?r c) < 0"
      unfolding Call_compare_neg by blast
    then show ?thesis
    proof cases
      case s2 with e1 show ?thesis using Call_compare_neg by metis
    next
      case e2
      have "compareRangesUsingStarts (?r a) (?r c) < 0"
        using e1(2) e2(2) unfolding compareRangesUsingStarts_neg by linarith
      with e1 e2 show ?thesis unfolding Call_compare_neg by simp
    qed
  qed
qed

lemma Call_compare_zero_cong:
  assumes "Call_compare a b = 0"
  shows "Call_compare a c = Call_compare b c" "Call_compare c a = Call_compare c b"
proof -
  from assms have u: "item_uri (item a) = item_uri (item b)"
    and r: "start_row (item_range (item a)) = start_row (item_range (item b))"
    and k: "start_column (item_range (item a)) = start_column (item_range (item b))"
    unfolding Call_compare_zero compareRangesUsingStarts_zero by simp_all
  show "Call_compare a c = Call_compare b c" "Call_compare c a = Call_compare c b"
    unfolding Call_compare_unfold compareRangesUsingStarts_def u r k by simp_all
qed

text \<open>
  C5: \<open>Call.compare\<close> is a total three-way order: a call compares equal to itself, swapping
  the arguments swaps the sign, "before" and "not after" are transitive, and two calls
  whose (uri, start row, start column) differ never compare equal.
\<close>

theorem Call_compare_total_order:
  fixes a b c :: "'e Call"
  shows "Call_compare a a = 0
    \<and> sgn (Call_compare a b) = - sgn (Call_compare b a)
    \<and> (Call_compare a b < 0 \<and> Call_compare b c < 0 \<longrightarrow> Call_compare a c < 0)
    \<and> (Call_compare a b \<le> 0 \<and> Call_compare b c \<le> 0 \<longrightarrow> Call_compare a c \<le> 0)
    \<and> ((item_uri (item a), start_row (item_range (item a)), start_column (item_range (item a)))
         \<noteq> (item_uri (item b), start_row (item_range (item b)), start_column (item_range (item b)))
       \<longrightarrow> Call_compare a b \<noteq> 0)"
proof (intro conjI impI)
  show "Call_compare a a = 0" by (simp add: Call_compare_zero compareRangesUsingStarts_zero)
  show "sgn (Call_compare a b) = - sgn (Call_compare b a)" by (simp add: Call_compare_flip[of b a])
  show "Call_compare a c < 0" if "Call_compare a b < 0 \<and> Call_compare b c < 0"
    using that Call_compare_trans_lt by blast
  show "Call_compare a c \<le> 0" if h: "Call_compare a b \<le> 0 \<and> Call_compare b c \<le> 0"
  proof (cases "Call_compare a b = 0")
    case True then show ?thesis using h Call_compare_zero_cong(1)[of a b c] by simp
  next
    case ab: False
    show ?thesis
    proof (cases "Call_compare b c = 0")
      case True then show ?thesis using h Call_compare_zero_cong(2)[of b c a] by simp
    next
      case False
      with ab h have "Call_compare a b < 0" "Call_compare b c < 0" by linarith+
      then show ?thesis using Call_compare_trans_lt[of a b c] by simp
    qed
  qed
  show "Call_compare a b \<noteq> 0"
    if "(item_uri (item a), start_row (item_range (item a)), start_column (item_range (item a)))
         \<noteq> (item_uri (item b), start_row (item_range (item b)), start_column (item_range (item b)))"
    using that by (auto simp add: Call_compare_zero compareRangesUsingStarts_zero)
qed

theorem Call_compare_total_order_witness:
  "Call_compare call_A call_B < 0 \<and> Call_compare call_B call_C < 0
     \<and> Call_compare call_A call_C < 0 \<and> Call_compare call_A call_C \<le> 0
     \<and> sgn (Call_compare call_A call_B) = - sgn (Call_compare call_B call_A)
     \<and> Call_compare call_A call_B \<noteq> 0 \<and> Call_compare call_A call_A = 0"
  using Call_compare_total_order [of call_A call_B call_C]
  by (simp add: Call_compare_unfold call_A_def call_B_def call_C_def item_A_def item_B_def
      item_C_def charCode_def)

text \<open>
  C6: for two calls whose items have the same uri string, the sign of \<open>Call.compare\<close> is
  that of comparing the start positions of the two ranges, the row first and then the
  column, ascending; the end positions play no part.
\<close>

theorem Call_compare_equal_uri:
  assumes "toString (item_uri (item a)) = toString (item_uri (item b))"
  shows "(Call_compare a b < 0 \<longleftrightarrow>
            start_row (item_range (item a)) < start_row (item_range (item b)) \<or>
            (start_row (item_range (item a)) = start_row (item_range (item b)) \<and>
             start_column (item_range (item a)) < start_column (item_range (item b))))
       \<and> (Call_compare a b = 0 \<longleftrightarrow>
            start_row (item_range (item a)) = start_row (item_range (item b)) \<and>
            start_column (item_range (item a)) = start_column (item_range (item b)))
       \<and> (Call_compare a b > 0 \<longleftrightarrow>
            start_row (item_range (item b)) < start_row (item_range (item a)) \<or>
            (start_row (item_range (item a)) = start_row (item_range (item b)) \<and>
             start_column (item_range (item b)) < start_column (item_range (item a))))"
  using assms
  by (simp add: toString_def Call_compare_unfold compareRangesUsingStarts_neg
      compareRangesUsingStarts_zero compareRangesUsingStarts_pos)

theorem Call_compare_equal_uri_witness:
  "toString (item_uri (item call_B)) = toString (item_uri (item call_D))
     \<and> Call_compare call_B call_D < 0 \<and> Call_compare call_D call_B > 0"
  using Call_compare_equal_uri [of call_B call_D] Call_compare_equal_uri [of call_D call_B]
  by (simp add: call_B_def call_D_def item_B_def item_D_def)

text \<open>
  C7: \<open>Call.compare\<close> reads nothing but the uri and the range of the two items: two pairs
  of calls whose items agree in uri and range pairwise compare alike, whatever their
  locations, models, parents and the other fields of their items, and whatever the two
  imported comparators compute.
\<close>

theorem Call_compare_item_only:
  assumes "item_uri (item a) = item_uri (item a')" and "item_range (item a) = item_range (item a')"
    and "item_uri (item b) = item_uri (item b')" and "item_range (item b) = item_range (item b')"
  shows "Call_compare_with strcmp rangecmp a b = Call_compare_with strcmp rangecmp a' b'"
  using assms unfolding Call_compare_with_def by presburger

theorem Call_compare_item_only_witness:
  "Call_compare_with compare compareRangesUsingStarts call_B call_C
     = Call_compare_with compare compareRangesUsingStarts
         (Call item_B None rejecting None)
         (Call (item_C\<lparr>item_name := ''renamed''\<rparr>) (Some []) session (Some call_B))"
  using Call_compare_item_only [of call_B "Call item_B None rejecting None" call_C
          "Call (item_C\<lparr>item_name := ''renamed''\<rparr>) (Some []) session (Some call_B)"
          compare compareRangesUsingStarts]
  by (simp add: call_B_def call_C_def)

section \<open>The JSON serialisation is self-delimiting\<close>

lemma minus_not_digit: "CHR ''-'' \<notin> digit_chars"
  by (simp add: digit_chars_def)

lemma comma_not_numeric: "CHR '','' \<notin> numeric_chars"
  by (simp add: numeric_chars_def digit_chars_def)

lemma brace_not_numeric: "CHR ''}'' \<notin> numeric_chars"
  by (simp add: numeric_chars_def digit_chars_def)

lemma digit_char_inj: "d < 10 \<Longrightarrow> e < 10 \<Longrightarrow> digit_char d = digit_char e \<Longrightarrow> d = e"
  unfolding digit_char_def
  using nth_eq_iff_index_eq[of "''0123456789''" d e] by simp

lemma digit_char_in: "d < 10 \<Longrightarrow> digit_char d \<in> digit_chars"
  unfolding digit_char_def digit_chars_def by (rule nth_mem) simp

lemma showNat_nonempty: "showNat n \<noteq> []"
  by (subst showNat.simps) simp

lemma showNat_digits: "set (showNat n) \<subseteq> digit_chars"
proof (induction n rule: showNat.induct)
  case (1 n)
  show ?case
  proof (cases "n < 10")
    case True
    then show ?thesis using digit_char_in[of n] by (subst showNat.simps) simp
  next
    case False
    with 1 have "set (showNat (n div 10)) \<subseteq> digit_chars" by simp
    moreover have "digit_char (n mod 10) \<in> digit_chars" by (rule digit_char_in) simp
    ultimately show ?thesis using False by (subst showNat.simps) simp
  qed
qed

lemma showNat_inj: "showNat a = showNat b \<Longrightarrow> a = b"
proof (induction a arbitrary: b rule: showNat.induct)
  case (1 a)
  show ?case
  proof (cases "a < 10")
    case a: True
    show ?thesis
    proof (cases "b < 10")
      case True
      with a 1(2) show ?thesis using digit_char_inj[of a b]
        by (simp add: showNat.simps[of a] showNat.simps[of b])
    next
      case False
      with a 1(2) show ?thesis using showNat_nonempty[of "b div 10"]
        by (simp add: showNat.simps[of a] showNat.simps[of b])
    qed
  next
    case a: False
    show ?thesis
    proof (cases "b < 10")
      case True
      with a 1(2) show ?thesis using showNat_nonempty[of "a div 10"]
        by (simp add: showNat.simps[of a] showNat.simps[of b])
    next
      case False
      with a 1(2) have e: "showNat (a div 10) = showNat (b div 10)"
        and d: "digit_char (a mod 10) = digit_char (b mod 10)"
        by (simp_all add: showNat.simps[of a] showNat.simps[of b])
      from 1(1)[OF a e] have "a div 10 = b div 10" .
      moreover from d have "a mod 10 = b mod 10"
        using digit_char_inj[of "a mod 10" "b mod 10"] by simp
      ultimately show ?thesis by (metis div_mult_mod_eq)
    qed
  qed
qed

lemma showInt_chars: "set (showInt i) \<subseteq> numeric_chars"
proof (cases "i < 0")
  case True
  then show ?thesis using showNat_digits[of "nat (- i)"]
    by (simp add: showInt_def numeric_chars_def subset_insertI2)
next
  case False
  then show ?thesis using showNat_digits[of "nat i"]
    by (simp add: showInt_def numeric_chars_def subset_insertI2)
qed

lemma showNat_no_minus: "showNat n \<noteq> CHR ''-'' # cs"
proof
  assume "showNat n = CHR ''-'' # cs"
  then have "CHR ''-'' \<in> set (showNat n)" by simp
  with showNat_digits[of n] minus_not_digit show False by blast
qed

lemma showInt_inj: "showInt a = showInt b \<Longrightarrow> a = b"
proof -
  assume e: "showInt a = showInt b"
  show ?thesis
  proof (cases "a < 0")
    case a: True
    show ?thesis
    proof (cases "b < 0")
      case True
      with a e have "nat (- a) = nat (- b)" using showNat_inj by (simp add: showInt_def)
      with a True show ?thesis by simp
    next
      case False
      with a e have "showNat (nat b) = CHR ''-'' # showNat (nat (- a))" by (simp add: showInt_def)
      with showNat_no_minus show ?thesis by blast
    qed
  next
    case a: False
    show ?thesis
    proof (cases "b < 0")
      case True
      with a e have "showNat (nat a) = CHR ''-'' # showNat (nat (- b))" by (simp add: showInt_def)
      with showNat_no_minus show ?thesis by blast
    next
      case False
      with a e have "nat a = nat b" using showNat_inj by (simp add: showInt_def)
      with a False show ?thesis by simp
    qed
  qed
qed

lemma showInt_takeWhile:
  assumes "c \<notin> numeric_chars"
  shows "takeWhile (\<lambda>x. x \<in> numeric_chars) (showInt i @ c # s) = showInt i"
proof -
  have "\<forall>x \<in> set (showInt i). x \<in> numeric_chars" using showInt_chars[of i] by blast
  then show ?thesis using assms by (simp add: takeWhile_tail)
qed

lemma showInt_delim:
  assumes "k @ showInt a @ c # s = k @ showInt b @ c # t" and c: "c \<notin> numeric_chars"
  shows "a = b \<and> s = t"
proof -
  from assms(1) have e: "showInt a @ c # s = showInt b @ c # t" by simp
  then have "takeWhile (\<lambda>x. x \<in> numeric_chars) (showInt a @ c # s)
           = takeWhile (\<lambda>x. x \<in> numeric_chars) (showInt b @ c # t)" by simp
  then have "showInt a = showInt b" unfolding showInt_takeWhile[OF c] .
  with e showInt_inj show ?thesis by simp
qed

lemma rangeJSON_append:
  \<open>rangeJSON r @ s =
     ''{"start_row":'' @ showInt (start_row r) @ CHR '','' #
     ''"start_column":'' @ showInt (start_column r) @ CHR '','' #
     ''"end_row":'' @ showInt (end_row r) @ CHR '','' #
     ''"end_column":'' @ showInt (end_column r) @ CHR ''}'' # s\<close>
  by (simp add: rangeJSON_def)

lemma rangeJSON_self_delimiting: "self_delimiting rangeJSON"
  unfolding self_delimiting_def
proof (intro allI impI)
  fix x y :: IRange and s t
  assume "rangeJSON x @ s = rangeJSON y @ t"
  then have e1: \<open>''{"start_row":'' @ showInt (start_row x) @ CHR '','' #
     ''"start_column":'' @ showInt (start_column x) @ CHR '','' #
     ''"end_row":'' @ showInt (end_row x) @ CHR '','' #
     ''"end_column":'' @ showInt (end_column x) @ CHR ''}'' # s
   = ''{"start_row":'' @ showInt (start_row y) @ CHR '','' #
     ''"start_column":'' @ showInt (start_column y) @ CHR '','' #
     ''"end_row":'' @ showInt (end_row y) @ CHR '','' #
     ''"end_column":'' @ showInt (end_column y) @ CHR ''}'' # t\<close>
    unfolding rangeJSON_append .
  from showInt_delim[OF e1 comma_not_numeric] have a: "start_row x = start_row y"
    and e2: \<open>''"start_column":'' @ showInt (start_column x) @ CHR '','' #
     ''"end_row":'' @ showInt (end_row x) @ CHR '','' #
     ''"end_column":'' @ showInt (end_column x) @ CHR ''}'' # s
   = ''"start_column":'' @ showInt (start_column y) @ CHR '','' #
     ''"end_row":'' @ showInt (end_row y) @ CHR '','' #
     ''"end_column":'' @ showInt (end_column y) @ CHR ''}'' # t\<close> by simp_all
  from showInt_delim[OF e2 comma_not_numeric] have b: "start_column x = start_column y"
    and e3: \<open>''"end_row":'' @ showInt (end_row x) @ CHR '','' #
     ''"end_column":'' @ showInt (end_column x) @ CHR ''}'' # s
   = ''"end_row":'' @ showInt (end_row y) @ CHR '','' #
     ''"end_column":'' @ showInt (end_column y) @ CHR ''}'' # t\<close> by simp_all
  from showInt_delim[OF e3 comma_not_numeric] have c: "end_row x = end_row y"
    and e4: \<open>''"end_column":'' @ showInt (end_column x) @ CHR ''}'' # s
   = ''"end_column":'' @ showInt (end_column y) @ CHR ''}'' # t\<close> by simp_all
  from showInt_delim[OF e4 brace_not_numeric] have d: "end_column x = end_column y" by simp
  from a b c d show "x = y" by simp
qed

lemma escape_delim:
  "escape s @ CHR 0x22 # x = escape t @ CHR 0x22 # y \<Longrightarrow> s = t \<and> x = y"
proof (induction s arbitrary: t)
  case Nil
  then show ?case by (cases t) (simp_all split: if_splits)
next
  case (Cons c cs)
  show ?case
  proof (cases t)
    case Nil with Cons.prems show ?thesis by (simp split: if_splits)
  next
    case (Cons d ds)
    with Cons.prems Cons.IH[of ds] show ?thesis by (simp split: if_splits)
  qed
qed

lemma quote_self_delimiting: "self_delimiting quote"
  unfolding self_delimiting_def
proof (intro allI impI)
  fix x y s t
  assume "quote x @ s = quote y @ t"
  then have "escape x @ CHR 0x22 # s = escape y @ CHR 0x22 # t" by (simp add: quote_def)
  then show "x = y" using escape_delim by blast
qed

lemma directionTag_self_delimiting: "self_delimiting directionTag"
  unfolding self_delimiting_def
proof (intro allI impI)
  fix x y s t
  assume "directionTag x @ s = directionTag y @ t"
  then show "x = y" by (cases x; cases y) simp_all
qed

lemma directionTag_inj: "inj directionTag"
proof (rule injI)
  fix x y
  assume "directionTag x = directionTag y"
  then show "x = y" by (cases x; cases y) simp_all
qed

section \<open>Identity of calls\<close>

lemma getId_Call:
  "getId js ip (Call i l m p) =
     directionString js (ip_getDirection ip ()) @ stringifyUri js (item_uri i)
       @ stringifyRange js (item_range i)
       @ (case p of None \<Rightarrow> [] | Some q \<Rightarrow> getId js ip q)"
  by (simp add: Let_def split: option.splits)

lemma getId_unfold:
  "getId js ip c =
     directionString js (ip_getDirection ip ()) @ stringifyUri js (item_uri (item c))
       @ stringifyRange js (item_range (item c))
       @ (case parent c of None \<Rightarrow> [] | Some p \<Rightarrow> getId js ip p)"
  by (cases c) (simp add: Let_def split: option.splits)

lemma chain_unfold:
  "chain c = (item_uri (item c), item_range (item c)) #
     (case parent c of None \<Rightarrow> [] | Some p \<Rightarrow> chain p)"
  by (cases c) (simp split: option.splits)

lemma getId_same_chain:
  "ip_getDirection ip1 () = ip_getDirection ip2 () \<Longrightarrow> chain c1 = chain c2 \<Longrightarrow>
   getId js ip1 c1 = getId js ip2 c2"
proof (induction c1 arbitrary: c2)
  case (Call i1 l1 m1 p1)
  obtain i2 l2 m2 p2 where c2: "c2 = Call i2 l2 m2 p2" by (cases c2)
  from Call.prems(2) c2 have hd: "item_uri i1 = item_uri i2" "item_range i1 = item_range i2"
    and tl: "(case p1 of None \<Rightarrow> [] | Some p \<Rightarrow> chain p)
           = (case p2 of None \<Rightarrow> [] | Some p \<Rightarrow> chain p)"
    by simp_all
  have "(case p1 of None \<Rightarrow> [] | Some p \<Rightarrow> getId js ip1 p)
      = (case p2 of None \<Rightarrow> [] | Some p \<Rightarrow> getId js ip2 p)"
  proof (cases p1)
    case None
    with tl show ?thesis by (cases p2) (simp_all add: chain_unfold)
  next
    case (Some q1)
    with tl obtain q2 where q2: "p2 = Some q2" by (cases p2) (simp_all add: chain_unfold)
    with tl Some have "chain q1 = chain q2" by simp
    with Call.IH[of q1 q2] Some Call.prems(1) have "getId js ip1 q1 = getId js ip2 q2" by simp
    with Some q2 show ?thesis by simp
  qed
  then show ?case unfolding c2 getId_Call
    using hd Call.prems(1) by simp
qed

lemma length_getId_diff:
  "int (length (getId js ip1 c)) - int (length (getId js ip2 c)) =
   int (length (chain c)) *
     (int (length (directionString js (ip_getDirection ip1 ()))) -
      int (length (directionString js (ip_getDirection ip2 ()))))"
proof (induction c)
  case (Call i l m p)
  show ?case
  proof (cases p)
    case None then show ?thesis by (simp add: Let_def)
  next
    case (Some q)
    with Call.IH[of q] show ?thesis by (simp add: Let_def algebra_simps)
  qed
qed

lemma getId_other_direction:
  assumes "directionString js (ip_getDirection ip1 ()) \<noteq> directionString js (ip_getDirection ip2 ())"
  shows "getId js ip1 c \<noteq> getId js ip2 c"
proof (cases "length (directionString js (ip_getDirection ip1 ()))
            = length (directionString js (ip_getDirection ip2 ()))")
  case True
  show ?thesis
  proof
    assume "getId js ip1 c = getId js ip2 c"
    then have "directionString js (ip_getDirection ip1 ()) = directionString js (ip_getDirection ip2 ())"
      unfolding getId_unfold[of js ip1 c] getId_unfold[of js ip2 c] using True by simp
    with assms show False by simp
  qed
next
  case False
  have "length (chain c) \<noteq> 0" by (simp add: chain_unfold)
  with False length_getId_diff[of js ip1 c ip2]
  have "int (length (getId js ip1 c)) - int (length (getId js ip2 c)) \<noteq> 0" by simp
  then show ?thesis by auto
qed

lemma self_delimitingD:
  "self_delimiting f \<Longrightarrow> f x @ s = f y @ t \<Longrightarrow> x = y \<and> s = t"
  unfolding self_delimiting_def by (metis same_append_eq)

lemma self_delimiting_direction_nonempty:
  fixes f :: "CallHierarchyDirection \<Rightarrow> string"
  assumes "self_delimiting f" shows "f d \<noteq> []"
proof
  assume e: "f d = []"
  obtain d' where d': "d' \<noteq> d" by (cases d) auto
  have "f d @ f d' = f d' @ []" using e by simp
  with assms have "d = d'" unfolding self_delimiting_def by blast
  with d' show False by simp
qed

lemma getId_nonempty:
  "self_delimiting (directionString js) \<Longrightarrow> getId js ip c \<noteq> []"
  unfolding getId_unfold[of js ip c] using self_delimiting_direction_nonempty by simp

lemma getId_eq_imp_chain:
  assumes sd: "self_delimiting (directionString js)" "self_delimiting (stringifyUri js)"
    "self_delimiting (stringifyRange js)"
  shows "getId js ip1 c1 = getId js ip2 c2 \<Longrightarrow>
         ip_getDirection ip1 () = ip_getDirection ip2 () \<and> chain c1 = chain c2"
proof (induction c1 arbitrary: c2)
  case (Call i1 l1 m1 p1)
  obtain i2 l2 m2 p2 where c2: "c2 = Call i2 l2 m2 p2" by (cases c2)
  let ?rest1 = "case p1 of None \<Rightarrow> [] | Some p \<Rightarrow> getId js ip1 p"
  let ?rest2 = "case p2 of None \<Rightarrow> [] | Some p \<Rightarrow> getId js ip2 p"
  from Call.prems have eq:
    "directionString js (ip_getDirection ip1 ()) @ stringifyUri js (item_uri i1)
       @ stringifyRange js (item_range i1) @ ?rest1
     = directionString js (ip_getDirection ip2 ()) @ stringifyUri js (item_uri i2)
       @ stringifyRange js (item_range i2) @ ?rest2"
    unfolding c2 getId_Call by simp
  from self_delimitingD[OF sd(1) eq] have d: "ip_getDirection ip1 () = ip_getDirection ip2 ()"
    and eq2: "stringifyUri js (item_uri i1) @ stringifyRange js (item_range i1) @ ?rest1
     = stringifyUri js (item_uri i2) @ stringifyRange js (item_range i2) @ ?rest2" by simp_all
  from self_delimitingD[OF sd(2) eq2] have u: "item_uri i1 = item_uri i2"
    and eq3: "stringifyRange js (item_range i1) @ ?rest1 = stringifyRange js (item_range i2) @ ?rest2"
    by simp_all
  from self_delimitingD[OF sd(3) eq3] have r: "item_range i1 = item_range i2"
    and eq4: "?rest1 = ?rest2" by simp_all
  have "(case p1 of None \<Rightarrow> [] | Some p \<Rightarrow> chain p) = (case p2 of None \<Rightarrow> [] | Some p \<Rightarrow> chain p)"
  proof (cases p1)
    case None
    show ?thesis
    proof (cases p2)
      case None2: None
      with None show ?thesis by simp
    next
      case (Some q2)
      with eq4 None have "getId js ip2 q2 = []" by simp
      with getId_nonempty[OF sd(1), of ip2 q2] show ?thesis by simp
    qed
  next
    case (Some q1)
    with eq4 obtain q2 where q2: "p2 = Some q2"
      using getId_nonempty[OF sd(1), of ip1 q1] by (cases p2) simp_all
    with eq4 Some have "getId js ip1 q1 = getId js ip2 q2" by simp
    with Call.IH[of q1 q2] Some have "chain q1 = chain q2" by simp
    with Some q2 show ?thesis by simp
  qed
  with d u r show ?case unfolding c2 by simp
qed

text \<open>
  C3: two calls whose ancestor chains carry the same uri and range at every level get
  the same id while the direction is the same; and, the two directions being written
  differently, the id of a call under one direction differs from its id under the
  other.
\<close>

theorem getId_stable:
  "(ip_getDirection ip1 () = ip_getDirection ip2 () \<longrightarrow> chain c1 = chain c2 \<longrightarrow>
      getId js ip1 c1 = getId js ip2 c2)
   \<and> (inj (directionString js) \<longrightarrow> ip_getDirection ip1 () \<noteq> ip_getDirection ip2 () \<longrightarrow>
      getId js ip1 c \<noteq> getId js ip2 c)"
proof (intro conjI impI)
  assume "ip_getDirection ip1 () = ip_getDirection ip2 ()" and "chain c1 = chain c2"
  then show "getId js ip1 c1 = getId js ip2 c2" by (rule getId_same_chain)
next
  assume "inj (directionString js)" and "ip_getDirection ip1 () \<noteq> ip_getDirection ip2 ()"
  then have "directionString js (ip_getDirection ip1 ()) \<noteq> directionString js (ip_getDirection ip2 ())"
    by (simp add: inj_eq)
  then show "getId js ip1 c \<noteq> getId js ip2 c" by (rule getId_other_direction)
qed

theorem getId_stable_witness:
  "chain call_B = chain (Call (item_B\<lparr>item_name := ''renamed''\<rparr>) None rejecting
                            (Some (Call item_A (Some []) rejecting None)))
     \<and> getId json outgoing_ids call_B
         = getId json outgoing_ids (Call (item_B\<lparr>item_name := ''renamed''\<rparr>) None rejecting
                                      (Some (Call item_A (Some []) rejecting None)))
     \<and> inj (directionString json)
     \<and> getId json outgoing_ids call_B \<noteq> getId json incoming_ids call_B"
  using getId_stable [of outgoing_ids outgoing_ids call_B
          "Call (item_B\<lparr>item_name := ''renamed''\<rparr>) None rejecting
             (Some (Call item_A (Some []) rejecting None))" json call_B]
        getId_stable [of outgoing_ids incoming_ids call_B call_B json call_B]
        directionTag_inj
  by (simp add: json_def outgoing_ids_def incoming_ids_def call_B_def call_A_def item_B_def)

text \<open>
  C4: with serialisations of direction, uri and range that are self-delimiting (as
  JSON texts of objects are), two calls with the same parent and different items
  (different uri or different range) get different ids under the same direction; and
  two calls get the same id exactly when their ancestor chains agree item for item, in
  uri and range, and the direction is the same.
\<close>

theorem getId_injective:
  assumes "self_delimiting (directionString js)" and "self_delimiting (stringifyUri js)"
    and "self_delimiting (stringifyRange js)"
  shows "(parent c1 = parent c2 \<and>
          (item_uri (item c1) \<noteq> item_uri (item c2) \<or> item_range (item c1) \<noteq> item_range (item c2))
          \<longrightarrow> getId js ip c1 \<noteq> getId js ip c2)
     \<and> (getId js ip1 c1 = getId js ip2 c2 \<longleftrightarrow>
          chain c1 = chain c2 \<and> ip_getDirection ip1 () = ip_getDirection ip2 ())"
proof (intro conjI impI)
  assume h: "parent c1 = parent c2 \<and>
          (item_uri (item c1) \<noteq> item_uri (item c2) \<or> item_range (item c1) \<noteq> item_range (item c2))"
  then have "chain c1 \<noteq> chain c2" by (auto simp add: chain_unfold[of c1] chain_unfold[of c2])
  then show "getId js ip c1 \<noteq> getId js ip c2" using getId_eq_imp_chain[OF assms, of ip c1 ip c2] by blast
next
  show "getId js ip1 c1 = getId js ip2 c2 \<longleftrightarrow>
          chain c1 = chain c2 \<and> ip_getDirection ip1 () = ip_getDirection ip2 ()"
    using getId_eq_imp_chain[OF assms, of ip1 c1 ip2 c2] getId_same_chain[of ip1 ip2 c1 c2 js] by blast
qed

theorem getId_injective_witness:
  "self_delimiting (directionString json) \<and> self_delimiting (stringifyUri json)
     \<and> self_delimiting (stringifyRange json)
     \<and> parent call_B = parent call_D \<and> item_range (item call_B) \<noteq> item_range (item call_D)
     \<and> getId json outgoing_ids call_B \<noteq> getId json outgoing_ids call_D
     \<and> getId json outgoing_ids call_B \<noteq> getId json outgoing_ids call_A
     \<and> getId json outgoing_ids call_B \<noteq> getId json incoming_ids call_B"
  using getId_injective [of json call_B call_D outgoing_ids outgoing_ids outgoing_ids]
        getId_injective [of json call_B call_A outgoing_ids outgoing_ids outgoing_ids]
        getId_injective [of json call_B call_B outgoing_ids outgoing_ids incoming_ids]
        directionTag_self_delimiting quote_self_delimiting rangeJSON_self_delimiting
  by (simp add: json_def outgoing_ids_def incoming_ids_def call_A_def call_B_def call_D_def
      item_A_def item_B_def item_D_def)


text \<open>
  The uri's serialisation has to be self-delimiting, not only injective: with the uri
  written raw, a root whose uri happens to spell out a call site and a direction has
  the id of a child call, although the two chains differ in length.
\<close>

lemma getId_raw_uri_collision:
  "inj (stringifyUri raw_uri)
     \<and> chain (Call (item_A\<lparr>item_uri := ''x''\<rparr>) (Some []) session
                 (Some (Call (item_B\<lparr>item_uri := ''y''\<rparr>) None session None)))
         \<noteq> chain (Call (item_B\<lparr>item_uri := ''x'' @ rangeJSON (item_range item_A) @ ''outgoingCalls'' @ ''y''\<rparr>)
                       None session None)
     \<and> getId raw_uri outgoing_ids
           (Call (item_A\<lparr>item_uri := ''x''\<rparr>) (Some []) session
              (Some (Call (item_B\<lparr>item_uri := ''y''\<rparr>) None session None)))
         = getId raw_uri outgoing_ids
             (Call (item_B\<lparr>item_uri := ''x'' @ rangeJSON (item_range item_A) @ ''outgoingCalls'' @ ''y''\<rparr>)
                None session None)"
  by (simp add: raw_uri_def outgoing_ids_def inj_def)

end
